theory Spec2Isabelle
  imports Complex_Main
begin

section \<open>FebrabanCode: a shallow embedding of \<^verbatim>\<open>febraban_code.py\<close>\<close>

text \<open>
  The class \<^verbatim>\<open>FebrabanCode\<close> parses a Brazilian bank payment identifier given
  as a 44-digit "bar" string or a 47-digit "line" string, stores its fields in a
  dictionary, re-encodes it and validates its check digits.

  Python strings are sequences of code points. The model takes \<^typ>\<open>string\<close> with one
  \<^typ>\<open>char\<close> per code point, so it covers the code points below 256. In that range
  \<^verbatim>\<open>str.isdigit\<close> holds of \<^verbatim>\<open>0\<close> to \<^verbatim>\<open>9\<close> and of the
  superscripts U+00B2, U+00B3 and U+00B9, while the pattern \<^verbatim>\<open>\d\<close> and
  \<^verbatim>\<open>int()\<close> accept \<^verbatim>\<open>0\<close> to \<^verbatim>\<open>9\<close> only.
  Python integers are unbounded and are modelled by \<^typ>\<open>int\<close>.
\<close>

subsection \<open>Values and exceptions\<close>

text \<open>
  The argument of the constructor may be any Python object; a field check digit is a
  one-character string in a record built from a line and an integer in a record built
  from a bar.
\<close>

datatype pyvalue = PyStr string | PyInt int | PyNone

text \<open>
  The exceptions the code can raise. \<open>InvalidInput\<close> is the
  \<^verbatim>\<open>AttributeError("bar_code must be a string")\<close> of \<^verbatim>\<open>__code_match\<close>,
  \<open>InvalidLength\<close> its \<^verbatim>\<open>ValueError\<close>, \<open>MalformedLayout\<close> the
  \<^verbatim>\<open>AttributeError\<close> of calling \<^verbatim>\<open>.group\<close> on the \<^verbatim>\<open>None\<close> that
  \<^verbatim>\<open>re.search\<close> returns when nothing matches; the others are raised by the
  interpreter inside \<^verbatim>\<open>int()\<close>, \<^verbatim>\<open>float()\<close>, indexing and date arithmetic.
\<close>

datatype error =
    InvalidInput
  | InvalidLength
  | MalformedLayout
  | ValueError
  | TypeError
  | IndexError
  | OverflowError

definition err_bind :: "error + 'a \<Rightarrow> ('a \<Rightarrow> error + 'b) \<Rightarrow> error + 'b" where
  "err_bind m f = (case m of Inl e \<Rightarrow> Inl e | Inr x \<Rightarrow> f x)"

datatype code_type = Line | Bar

subsection \<open>Characters, \<^verbatim>\<open>int()\<close>, \<^verbatim>\<open>str()\<close>\<close>

definition is_decimal :: "char \<Rightarrow> bool" where
  "is_decimal c = (c \<in> set ''0123456789'')"

text \<open>\<^verbatim>\<open>char.isdigit()\<close> on one code point below 256.\<close>

definition isdigit :: "char \<Rightarrow> bool" where
  "isdigit c = (is_decimal c \<or> c \<in> {char_of (0xB2::nat), char_of (0xB3::nat), char_of (0xB9::nat)})"

definition digit_val :: "char \<Rightarrow> int" where
  "digit_val c = int (of_char c) - 48"

text \<open>
  \<^verbatim>\<open>int(s)\<close> for a string: the decimal value of a non-empty run of \<^verbatim>\<open>0\<close> to
  \<^verbatim>\<open>9\<close>, \<^verbatim>\<open>ValueError\<close> otherwise. For a string of one character this is all
  of Python's \<^verbatim>\<open>int\<close>; on longer strings Python also accepts a sign, underscores
  and surrounding white space, which the program never passes (every longer argument is
  a group matched by \<^verbatim>\<open>\d{n}\<close>).
\<close>

definition py_int :: "string \<Rightarrow> error + int" where
  "py_int s = (if s \<noteq> [] \<and> list_all is_decimal s
               then Inr (foldl (\<lambda>acc c. 10 * acc + digit_val c) 0 s)
               else Inl ValueError)"

fun str_nat :: "nat \<Rightarrow> string" where
  "str_nat n = (if n < 10 then [char_of (48 + n)]
                else str_nat (n div 10) @ [char_of (48 + n mod 10)])"

definition str_int :: "int \<Rightarrow> string" where
  "str_int i = (if i < 0 then CHR ''-'' # str_nat (nat (- i)) else str_nat (nat i))"

text \<open>\<^verbatim>\<open>int(v)\<close> and the f-string rendering \<^verbatim>\<open>f"{v}"\<close> of a value.\<close>

fun int_of :: "pyvalue \<Rightarrow> error + int" where
  "int_of (PyStr s) = py_int s"
| "int_of (PyInt i) = Inr i"
| "int_of PyNone = Inl TypeError"

fun format :: "pyvalue \<Rightarrow> string" where
  "format (PyStr s) = s"
| "format (PyInt i) = str_int i"
| "format PyNone = ''None''"

subsection \<open>The record\<close>

text \<open>
  \<^verbatim>\<open>__code_info\<close> is a dictionary with a fixed set of keys, two of them nested
  dictionaries \<^verbatim>\<open>{"info": ..., "dv": ...}\<close>. The key \<^verbatim>\<open>"type"\<close> is the field
  \<open>kind\<close>, \<^verbatim>\<open>"value"\<close> is \<open>amount\<close>, and the \<^verbatim>\<open>"dv"\<close> of a nested
  dictionary is \<open>field_dv\<close>.

  The date \<^verbatim>\<open>expiry\<close> is held as its proleptic Gregorian ordinal
  (\<^verbatim>\<open>date.toordinal()\<close>). The float \<^verbatim>\<open>value\<close> is held as the exact rational
  that the parsed decimal literal denotes: rounding to a binary float is not modelled.
\<close>

record code_field =
  info :: string
  field_dv :: pyvalue

record code_info =
  kind :: code_type
  bank :: string
  currency :: string
  field_1 :: code_field
  field_2 :: code_field
  field_3 :: code_field
  dv :: string
  expiry_factor :: string
  expiry :: int
  value_factor :: string
  amount :: rat

record matched =
  code_type :: code_type
  code_value :: string

subsection \<open>\<^verbatim>\<open>__code_match\<close>\<close>

definition valid_length :: "nat \<rightharpoonup> code_type" where
  "valid_length = [47 \<mapsto> Line, 44 \<mapsto> Bar]"

fun code_match :: "pyvalue \<Rightarrow> error + matched" where
  "code_match (PyStr code) =
     (let code = filter isdigit code in
      case valid_length (length code) of
        None \<Rightarrow> Inl InvalidLength
      | Some t \<Rightarrow> Inr \<lparr>code_type = t, code_value = code\<rparr>)"
| "code_match _ = Inl InvalidInput"

subsection \<open>The check digits\<close>

text \<open>
  \<^verbatim>\<open>__get_dv_module_10\<close>: the loop over \<^verbatim>\<open>enumerate(number[::-1])\<close>, with the
  running \<^verbatim>\<open>total\<close> (here \<open>tot\<close>) as the state. \<^verbatim>\<open>int(digit)\<close> is evaluated before
  \<^verbatim>\<open>multipliers[count]\<close>.
\<close>

fun dv10_loop :: "int list \<Rightarrow> (nat \<times> char) list \<Rightarrow> int \<Rightarrow> error + int" where
  "dv10_loop multipliers [] tot = Inr tot"
| "dv10_loop multipliers ((count, digit) # rest) tot =
     err_bind (py_int [digit]) (\<lambda>d.
       if count < length multipliers then
         (let product = d * multipliers ! count in
          dv10_loop multipliers rest
            (tot + (if product < 10 then product else product div 10 + product mod 10)))
       else Inl IndexError)"

definition get_dv_module_10 :: "string \<Rightarrow> error + int" where
  "get_dv_module_10 number =
     (let multipliers = concat (replicate ((length number + 1) div 2) [2, 1]) in
      err_bind (dv10_loop multipliers (enumerate 0 (rev number)) 0) (\<lambda>tot.
        let remainder = tot mod 10;
            dv_calculated = (if remainder \<noteq> 0 then 10 - remainder else 0)
        in Inr dv_calculated))"

text \<open>
  \<^verbatim>\<open>__get_dv_module_11\<close>: the loop over \<^verbatim>\<open>range(0, len(number))\<close>, with the pair
  (\<^verbatim>\<open>total\<close>, \<^verbatim>\<open>multiplier\<close>) as the state.
\<close>

fun dv11_loop :: "string \<Rightarrow> nat list \<Rightarrow> int \<times> int \<Rightarrow> error + int \<times> int" where
  "dv11_loop number [] st = Inr st"
| "dv11_loop number (digit # rest) (tot, multiplier) =
     (if digit < length number then
        err_bind (py_int [number ! digit]) (\<lambda>d.
          let tot = tot + d * multiplier;
              multiplier = (if multiplier = 2 then 10 else multiplier);
              multiplier = multiplier - 1
          in dv11_loop number rest (tot, multiplier))
      else Inl IndexError)"

definition get_dv_module_11 :: "string \<Rightarrow> error + int" where
  "get_dv_module_11 number =
     err_bind (dv11_loop number [0..<length number] (0, 4)) (\<lambda>(tot, multiplier).
       let dv' = 11 - tot mod 11 in
       if dv' \<in> {0, 10, 11} then Inr 1 else Inr dv')"

text \<open>
  The multiplier that the loop of \<^verbatim>\<open>__get_dv_module_11\<close> holds when it reaches
  index \<open>i\<close>, that is after \<open>i\<close> iterations: the one it applies to \<^verbatim>\<open>number[i]\<close>.
\<close>

definition dv11_multiplier_at :: "string \<Rightarrow> nat \<Rightarrow> error + int" where
  "dv11_multiplier_at number i =
     err_bind (dv11_loop number [0..<i] (0, 4)) (\<lambda>(tot, multiplier). Inr multiplier)"

text \<open>The running total of that loop over the whole string.\<close>

definition dv11_total :: "string \<Rightarrow> error + int" where
  "dv11_total number =
     err_bind (dv11_loop number [0..<length number] (0, 4)) (\<lambda>(tot, multiplier). Inr tot)"

subsection \<open>Expiry date and value\<close>

definition base_date :: int where
  "base_date = 729304"  \<comment> \<open>\<^verbatim>\<open>datetime(1997, 10, 7).date().toordinal()\<close>\<close>

definition date_max :: int where
  "date_max = 3652059"  \<comment> \<open>\<^verbatim>\<open>date.max.toordinal()\<close>\<close>

definition get_expiry :: "string \<Rightarrow> error + int" where
  "get_expiry factor =
     err_bind (py_int factor) (\<lambda>days.
       if base_date + days \<le> date_max then Inr (base_date + days) else Inl OverflowError)"

text \<open>
  \<^verbatim>\<open>float(f"{value[:-2]}.{value[-2:]}")\<close>: the literal has the digits before the
  last two as its integer part and the last two as its fraction; either part may be
  empty, but not both.
\<close>

definition py_float_literal :: "string \<Rightarrow> string \<Rightarrow> error + rat" where
  "py_float_literal ip fp =
     (if list_all is_decimal (ip @ fp) \<and> ip @ fp \<noteq> []
      then Inr (of_int (foldl (\<lambda>acc c. 10 * acc + digit_val c) 0 (ip @ fp)) / 10 ^ length fp)
      else Inl ValueError)"

definition convert_value_factor :: "string \<Rightarrow> error + rat" where
  "convert_value_factor v =
     py_float_literal (take (length v - 2) v) (drop (length v - 2) v)"

subsection \<open>\<^verbatim>\<open>re.search\<close> for a pattern of digit groups\<close>

text \<open>
  Both patterns are a sequence of groups \<^verbatim>\<open>(\d{w})\<close>. \<^verbatim>\<open>re.search\<close> returns the
  leftmost place where as many decimal digits as the widths add up to stand in a row,
  cut into the groups, or \<^verbatim>\<open>None\<close>.
\<close>

fun take_groups :: "nat list \<Rightarrow> string \<Rightarrow> string list" where
  "take_groups [] s = []"
| "take_groups (w # ws) s = take w s # take_groups ws (drop w s)"

definition match_here :: "nat list \<Rightarrow> string \<Rightarrow> string list option" where
  "match_here ws s =
     (if sum_list ws \<le> length s \<and> list_all is_decimal (take (sum_list ws) s)
      then Some (take_groups ws s) else None)"

fun re_search :: "nat list \<Rightarrow> string \<Rightarrow> string list option" where
  "re_search ws [] = match_here ws []"
| "re_search ws (c # cs) =
     (case match_here ws (c # cs) of Some gs \<Rightarrow> Some gs | None \<Rightarrow> re_search ws cs)"

text \<open>\<^verbatim>\<open>match.group(n)\<close>, \<open>n\<close> from 1.\<close>

definition group :: "string list \<Rightarrow> nat \<Rightarrow> string" where
  "group m n = m ! (n - 1)"

text \<open>\<^verbatim>\<open>s[-1]\<close> raises \<^verbatim>\<open>IndexError\<close> on the empty string.\<close>

definition last_char :: "string \<Rightarrow> error + string" where
  "last_char s = (if s = [] then Inl IndexError else Inr [last s])"

subsection \<open>\<^verbatim>\<open>__get_info_from_line\<close>, \<^verbatim>\<open>__get_info_from_bar\<close>, the constructor\<close>

definition line_field :: "string \<Rightarrow> error + code_field" where
  "line_field g = err_bind (last_char g) (\<lambda>d. Inr \<lparr>info = butlast g, field_dv = PyStr d\<rparr>)"

definition get_info_from_line :: "string \<Rightarrow> error + code_info" where
  "get_info_from_line line =
     (case re_search [3, 1, 6, 11, 11, 1, 4, 10] line of
        None \<Rightarrow> Inl MalformedLayout
      | Some m \<Rightarrow>
          err_bind (line_field (group m 3)) (\<lambda>f1.
          err_bind (line_field (group m 4)) (\<lambda>f2.
          err_bind (line_field (group m 5)) (\<lambda>f3.
          err_bind (get_expiry (group m 7)) (\<lambda>e.
          err_bind (convert_value_factor (group m 8)) (\<lambda>v.
            Inr \<lparr>kind = Line,
                 bank = group m 1,
                 currency = group m 2,
                 field_1 = f1,
                 field_2 = f2,
                 field_3 = f3,
                 dv = group m 6,
                 expiry_factor = group m 7,
                 expiry = e,
                 value_factor = group m 8,
                 amount = v\<rparr>))))))"

definition get_info_from_bar :: "string \<Rightarrow> error + code_info" where
  "get_info_from_bar bar =
     (case re_search [3, 1, 1, 4, 10, 5, 10, 10] bar of
        None \<Rightarrow> Inl MalformedLayout
      | Some m \<Rightarrow>
          err_bind (get_expiry (group m 4)) (\<lambda>e.
          err_bind (convert_value_factor (group m 5)) (\<lambda>v.
          err_bind (get_dv_module_10 (group m 1 @ group m 2 @ group m 6)) (\<lambda>dv1.
          err_bind (get_dv_module_10 (group m 7)) (\<lambda>dv2.
          err_bind (get_dv_module_10 (group m 8)) (\<lambda>dv3.
            Inr \<lparr>kind = Bar,
                 bank = group m 1,
                 currency = group m 2,
                 field_1 = \<lparr>info = group m 6, field_dv = PyInt dv1\<rparr>,
                 field_2 = \<lparr>info = group m 7, field_dv = PyInt dv2\<rparr>,
                 field_3 = \<lparr>info = group m 8, field_dv = PyInt dv3\<rparr>,
                 dv = group m 3,
                 expiry_factor = group m 4,
                 expiry = e,
                 value_factor = group m 5,
                 amount = v\<rparr>))))))"

definition get_info_from_code :: "matched \<Rightarrow> error + code_info" where
  "get_info_from_code code =
     (case code_type code of
        Line \<Rightarrow> get_info_from_line (code_value code)
      | Bar \<Rightarrow> get_info_from_bar (code_value code))"

text \<open>\<^verbatim>\<open>FebrabanCode(bar_code)\<close>: the object is its \<^verbatim>\<open>__code_info\<close>.\<close>

definition FebrabanCode :: "pyvalue \<Rightarrow> error + code_info" where
  "FebrabanCode bar_code = err_bind (code_match bar_code) get_info_from_code"

subsection \<open>\<^verbatim>\<open>get_bar\<close>, \<^verbatim>\<open>get_line\<close>, \<^verbatim>\<open>validate\<close>\<close>

definition get_bar :: "code_info \<Rightarrow> string" where
  "get_bar c =
     bank c @ currency c @ dv c @ expiry_factor c @ value_factor c
     @ info (field_1 c) @ info (field_2 c) @ info (field_3 c)"

definition get_line :: "code_info \<Rightarrow> bool \<Rightarrow> string" where
  "get_line c formatted =
     (if formatted then
        bank c @ currency c @ take 1 (info (field_1 c)) @ ''.''
        @ drop 1 (info (field_1 c)) @ format (field_dv (field_1 c)) @ '' ''
        @ take 5 (info (field_2 c)) @ ''.'' @ drop 5 (info (field_2 c))
        @ format (field_dv (field_2 c)) @ '' ''
        @ take 5 (info (field_3 c)) @ ''.'' @ drop 5 (info (field_3 c))
        @ format (field_dv (field_3 c)) @ '' ''
        @ dv c @ '' ''
        @ expiry_factor c @ value_factor c
      else
        bank c @ currency c
        @ info (field_1 c) @ format (field_dv (field_1 c))
        @ info (field_2 c) @ format (field_dv (field_2 c))
        @ info (field_3 c) @ format (field_dv (field_3 c))
        @ dv c @ expiry_factor c @ value_factor c)"

definition validate :: "code_info \<Rightarrow> error + bool" where
  "validate c =
     (let dv1_string = bank c @ currency c @ info (field_1 c) in
      err_bind (get_dv_module_10 dv1_string) (\<lambda>c1.
      err_bind (int_of (field_dv (field_1 c))) (\<lambda>s1.
      err_bind (get_dv_module_10 (info (field_2 c))) (\<lambda>c2.
      err_bind (int_of (field_dv (field_2 c))) (\<lambda>s2.
      err_bind (get_dv_module_10 (info (field_3 c))) (\<lambda>c3.
      err_bind (int_of (field_dv (field_3 c))) (\<lambda>s3.
      let bar = get_bar c in
      err_bind (get_dv_module_11 (take 4 bar @ drop 5 bar)) (\<lambda>c4.
      err_bind (py_int (dv c)) (\<lambda>s4.
        let dv1_is_valid = (c1 = s1);
            dv2_is_valid = (c2 = s2);
            dv3_is_valid = (c3 = s3);
            dv_line_is_valid = (c4 = s4)
        in if \<not> list_all id [dv1_is_valid, dv2_is_valid, dv3_is_valid, dv_line_is_valid]
           then Inr False else Inr True)))))))))"

subsection \<open>The check digits as the specification words them\<close>

text \<open>
  The specification's modulo-10 algorithm, written from its words and not from the code:
  the digits are taken right to left, multiplied alternately by 2 and by 1 (the rightmost
  by 2); a product of 10 or more is replaced by the sum of its two decimal digits; the
  contributions are summed; the result is 0 when the sum is a multiple of 10 and 10 minus
  the remainder otherwise.
\<close>

fun spec_contributions :: "int \<Rightarrow> int list \<Rightarrow> int list" where
  "spec_contributions m [] = []"
| "spec_contributions m (d # ds) =
     (if d * m \<ge> 10 then (d * m) div 10 + (d * m) mod 10 else d * m)
     # spec_contributions (if m = 2 then 1 else 2) ds"

definition spec_checkDigitMod10 :: "string \<Rightarrow> int" where
  "spec_checkDigitMod10 digits =
     (let s = sum_list (spec_contributions 2 (rev (map digit_val digits)))
      in if s mod 10 = 0 then 0 else 10 - s mod 10)"

text \<open>
  The specification's modulo-11 multipliers, from its words: the multiplier starts at 4,
  decreases by 1 each digit, and wraps from 2 back to 10.
\<close>

fun spec_mod11_multiplier :: "nat \<Rightarrow> int" where
  "spec_mod11_multiplier 0 = 4"
| "spec_mod11_multiplier (Suc i) =
     (if spec_mod11_multiplier i = 2 then 10 else spec_mod11_multiplier i - 1)"

section \<open>Verification\<close>

subsection \<open>Auxiliary facts\<close>

lemma err_bind_Inr: "err_bind (Inr x) f = f x"
  by (simp add: err_bind_def)

lemma err_bind_Inl: "err_bind (Inl e) f = Inl e"
  by (simp add: err_bind_def)

lemma digit_val_range: "is_decimal c \<Longrightarrow> 0 \<le> digit_val c \<and> digit_val c \<le> 9"
  by (auto simp: is_decimal_def digit_val_def)

lemma py_int_digit: "is_decimal c \<Longrightarrow> py_int [c] = Inr (digit_val c)"
  by (simp add: py_int_def)

subsection \<open>The modulo-10 check digit\<close>

lemma multipliers_length: "length (concat (replicate n [2, 1 :: int])) = 2 * n"
  by (induction n) simp_all

lemma multipliers_nth:
  "i < 2 * n \<Longrightarrow> concat (replicate n [2, 1 :: int]) ! i = (if even i then 2 else 1)"
proof (induction n arbitrary: i)
  case 0
  then show ?case by simp
next
  case (Suc n)
  show ?case
  proof (cases i)
    case 0
    then show ?thesis by simp
  next
    case (Suc j)
    note ij = this
    show ?thesis
    proof (cases j)
      case 0
      with ij show ?thesis by simp
    next
      case (Suc k)
      with ij Suc.prems have "k < 2 * n" by simp
      from Suc.IH [OF this] ij Suc show ?thesis by simp
    qed
  qed
qed

lemma dv10_loop_spec:
  assumes "list_all is_decimal ds"
    and "k + length ds \<le> length ms"
    and "\<forall>i < length ms. ms ! i = (if even i then 2 else 1)"
  shows "dv10_loop ms (enumerate k ds) tot =
         Inr (tot + sum_list (spec_contributions (if even k then 2 else 1) (map digit_val ds)))"
  using assms
proof (induction ds arbitrary: k tot)
  case Nil
  then show ?case by simp
next
  case (Cons d ds)
  from Cons.prems have dec: "is_decimal d" and rest: "list_all is_decimal ds"
    and k: "k < length ms" and len: "Suc k + length ds \<le> length ms"
    by simp_all
  from Cons.prems(3) k have mk: "ms ! k = (if even k then 2 else 1)" by blast
  have step: "dv10_loop ms (enumerate (Suc k) ds) t =
      Inr (t + sum_list (spec_contributions (if even (Suc k) then 2 else 1) (map digit_val ds)))" for t
    using Cons.IH [OF rest len Cons.prems(3)] .
  show ?case
    using dec k mk
    by (simp add: py_int_digit err_bind_Inr step Let_def not_less)
qed

lemma get_dv_module_10_spec:
  assumes "list_all is_decimal number"
  shows "get_dv_module_10 number = Inr (spec_checkDigitMod10 number)"
proof -
  let ?ms = "concat (replicate ((length number + 1) div 2) [2, 1 :: int])"
  have dec: "list_all is_decimal (rev number)" using assms by (simp add: list_all_iff)
  have len: "0 + length (rev number) \<le> length ?ms"
    by (simp add: multipliers_length)
  have nth: "\<forall>i < length ?ms. ?ms ! i = (if even i then 2 else 1)"
    using multipliers_nth by (simp add: multipliers_length)
  have "dv10_loop ?ms (enumerate 0 (rev number)) 0 =
        Inr (0 + sum_list (spec_contributions (if even (0::nat) then 2 else 1) (map digit_val (rev number))))"
    by (rule dv10_loop_spec [OF dec len nth])
  then show ?thesis
    by (simp add: get_dv_module_10_def spec_checkDigitMod10_def Let_def err_bind_Inr rev_map)
qed

lemma check10_range:
  fixes x :: int
  shows "0 \<le> (if x mod 10 = 0 then 0 else 10 - x mod 10) \<and>
         (if x mod 10 = 0 then 0 else 10 - x mod 10) \<le> 9"
proof -
  have "0 \<le> x mod 10" and "x mod 10 < 10" by simp_all
  then show ?thesis by auto
qed

lemma spec_checkDigitMod10_range: "0 \<le> spec_checkDigitMod10 s \<and> spec_checkDigitMod10 s \<le> 9"
  unfolding spec_checkDigitMod10_def Let_def
  by (rule check10_range)

lemma spec_contributions_snoc_zero:
  "sum_list (spec_contributions m (ds @ [0])) = sum_list (spec_contributions m ds)"
  by (induction ds arbitrary: m) simp_all

lemma digit_val_zero: "digit_val CHR ''0'' = 0"
  by (simp add: digit_val_def)

lemma spec_checkDigitMod10_leading_zero:
  "spec_checkDigitMod10 (CHR ''0'' # s) = spec_checkDigitMod10 s"
  by (simp add: spec_checkDigitMod10_def spec_contributions_snoc_zero digit_val_zero)


subsection \<open>The modulo-11 check digit\<close>

lemma dv11_loop_append:
  "dv11_loop number (xs @ ys) st = err_bind (dv11_loop number xs st) (dv11_loop number ys)"
proof (induction xs arbitrary: st)
  case Nil
  then show ?case by (simp add: err_bind_Inr)
next
  case (Cons x xs)
  obtain t m where st: "st = (t, m)" by (cases st)
  show ?case
    unfolding st
    by (cases "py_int [number ! x]") (simp_all add: err_bind_def Let_def Cons.IH)
qed

lemma dv11_loop_single:
  assumes "i < length number" and "is_decimal (number ! i)"
  shows "dv11_loop number [i] (t, m) =
         Inr (t + digit_val (number ! i) * m, (if m = 2 then 10 else m) - 1)"
  using assms by (simp add: py_int_digit err_bind_Inr Let_def)

lemma cycle8_next:
  "(if [4, 3, 2, 9, 8, 7, 6, 5 :: int] ! (i mod 8) = 2 then 10
    else [4, 3, 2, 9, 8, 7, 6, 5] ! (i mod 8)) - 1
   = [4, 3, 2, 9, 8, 7, 6, 5 :: int] ! (Suc i mod 8)"
proof -
  have "i mod 8 < 8" by simp
  then consider "i mod 8 = 0" | "i mod 8 = 1" | "i mod 8 = 2" | "i mod 8 = 3"
    | "i mod 8 = 4" | "i mod 8 = 5" | "i mod 8 = 6" | "i mod 8 = 7"
    by linarith
  then show ?thesis
    by cases (simp_all add: mod_Suc)
qed

lemma dv11_loop_upt:
  assumes "list_all is_decimal number" and "i \<le> length number"
  shows "dv11_loop number [0..<i] (0, 4) =
         Inr (\<Sum>j<i. digit_val (number ! j) * [4, 3, 2, 9, 8, 7, 6, 5] ! (j mod 8),
              [4, 3, 2, 9, 8, 7, 6, 5] ! (i mod 8))"
  using assms(2)
proof (induction i)
  case 0
  then show ?case by simp
next
  case (Suc i)
  then have i: "i < length number" and IH: "dv11_loop number [0..<i] (0, 4) =
         Inr (\<Sum>j<i. digit_val (number ! j) * [4, 3, 2, 9, 8, 7, 6, 5] ! (j mod 8),
              [4, 3, 2, 9, 8, 7, 6, 5] ! (i mod 8))"
    by simp_all
  from assms(1) i have dec: "is_decimal (number ! i)"
    by (simp add: list_all_length)
  have "dv11_loop number [0..<Suc i] (0, 4) =
        err_bind (dv11_loop number [0..<i] (0, 4)) (dv11_loop number [i])"
    by (simp add: dv11_loop_append)
  also have "\<dots> = Inr ((\<Sum>j<i. digit_val (number ! j) * [4, 3, 2, 9, 8, 7, 6, 5] ! (j mod 8))
                       + digit_val (number ! i) * [4, 3, 2, 9, 8, 7, 6, 5] ! (i mod 8),
                     (if [4, 3, 2, 9, 8, 7, 6, 5 :: int] ! (i mod 8) = 2 then 10
                      else [4, 3, 2, 9, 8, 7, 6, 5] ! (i mod 8)) - 1)"
    unfolding IH err_bind_Inr by (rule dv11_loop_single [OF i dec])
  finally show ?case
    unfolding cycle8_next by simp
qed

lemma check11_range:
  fixes x :: int
  shows "1 \<le> (if 11 - x mod 11 \<in> {0, 10, 11} then 1 else 11 - x mod 11) \<and>
         (if 11 - x mod 11 \<in> {0, 10, 11} then 1 else 11 - x mod 11) \<le> 9"
proof -
  have "0 \<le> x mod 11" and "x mod 11 < 11" by simp_all
  then show ?thesis by auto
qed

lemma dv11_multiplier_at_cycle:
  assumes "list_all is_decimal number" and "i < length number"
  shows "dv11_multiplier_at number i = Inr ([4, 3, 2, 9, 8, 7, 6, 5] ! (i mod 8))"
  using dv11_loop_upt [OF assms(1), of i] assms(2)
  by (simp add: dv11_multiplier_at_def err_bind_Inr)

lemma dv11_total_sum:
  assumes "list_all is_decimal number"
  shows "dv11_total number =
         Inr (\<Sum>j<length number. digit_val (number ! j) * [4, 3, 2, 9, 8, 7, 6, 5] ! (j mod 8))"
  using dv11_loop_upt [OF assms, of "length number"]
  by (simp add: dv11_total_def err_bind_Inr)

lemma get_dv_module_11_total:
  assumes "dv11_total number = Inr t"
  shows "get_dv_module_11 number =
         Inr (if 11 - t mod 11 \<in> {0, 10, 11} then 1 else 11 - t mod 11)"
  using assms
  by (auto simp: dv11_total_def get_dv_module_11_def err_bind_def Let_def split: sum.splits prod.splits)

subsection \<open>Claims about the check digits\<close>

text \<open>
  Claim C7. For every string of decimal digits, \<^verbatim>\<open>__get_dv_module_10\<close> returns the
  value of the specification's reference algorithm (digits right to left, multipliers 2
  and 1 alternating from the rightmost digit, products of 10 or more replaced by the sum
  of their digits, 0 for a sum that is a multiple of 10 and 10 minus the remainder
  otherwise), and that value is a single digit from 0 to 9.
\<close>

theorem get_dv_module_10_refines_spec:
  assumes "list_all is_decimal number"
  shows "get_dv_module_10 number = Inr (spec_checkDigitMod10 number)
         \<and> 0 \<le> spec_checkDigitMod10 number \<and> spec_checkDigitMod10 number \<le> 9"
  using get_dv_module_10_spec [OF assms] spec_checkDigitMod10_range [of number]
  by simp

theorem get_dv_module_10_refines_spec_witness:
  "list_all is_decimal ''0019050095''
   \<and> get_dv_module_10 ''0019050095'' = Inr (spec_checkDigitMod10 ''0019050095'')
   \<and> 0 \<le> spec_checkDigitMod10 ''0019050095'' \<and> spec_checkDigitMod10 ''0019050095'' \<le> 9"
proof -
  have h: "list_all is_decimal ''0019050095''"
    by (simp add: is_decimal_def)
  show ?thesis
    using h get_dv_module_10_refines_spec [OF h] by simp
qed

text \<open>
  Claim C10. \<^verbatim>\<open>__get_dv_module_10\<close> does not change when a zero is put in front of
  a string of decimal digits.
\<close>

theorem get_dv_module_10_leading_zero:
  assumes "list_all is_decimal s"
  shows "get_dv_module_10 (CHR ''0'' # s) = get_dv_module_10 s"
proof -
  have "list_all is_decimal (CHR ''0'' # s)"
    using assms by (simp add: is_decimal_def)
  then have "get_dv_module_10 (CHR ''0'' # s) = Inr (spec_checkDigitMod10 (CHR ''0'' # s))"
    by (rule get_dv_module_10_spec)
  also have "\<dots> = Inr (spec_checkDigitMod10 s)"
    by (simp only: spec_checkDigitMod10_leading_zero)
  also have "\<dots> = get_dv_module_10 s"
    using get_dv_module_10_spec [OF assms] by simp
  finally show ?thesis .
qed

theorem get_dv_module_10_leading_zero_witness:
  "list_all is_decimal ''4014481606''
   \<and> get_dv_module_10 (CHR ''0'' # ''4014481606'') = get_dv_module_10 ''4014481606''"
proof -
  have h: "list_all is_decimal ''4014481606''"
    by (simp add: is_decimal_def)
  show ?thesis
    using h get_dv_module_10_leading_zero [OF h] by simp
qed

text \<open>
  Claim C6. For every string of decimal digits, \<^verbatim>\<open>__get_dv_module_11\<close> returns 1
  whenever \<open>11 - total mod 11\<close> is 0, 10 or 11 and that number otherwise, and the
  value returned lies between 1 and 9: it is never 0, 10 or 11.
\<close>

theorem get_dv_module_11_range:
  assumes "list_all is_decimal number"
  shows "\<exists>t d. dv11_total number = Inr t \<and> get_dv_module_11 number = Inr d
           \<and> d = (if 11 - t mod 11 \<in> {0, 10, 11} then 1 else 11 - t mod 11)
           \<and> 1 \<le> d \<and> d \<le> 9 \<and> d \<notin> {0, 10, 11}"
proof -
  from dv11_total_sum [OF assms] obtain t where t: "dv11_total number = Inr t"
    by blast
  let ?d = "if 11 - t mod 11 \<in> {0, 10, 11} then 1 else 11 - t mod 11"
  have d: "get_dv_module_11 number = Inr ?d"
    by (rule get_dv_module_11_total [OF t])
  have r: "1 \<le> ?d \<and> ?d \<le> 9"
    by (rule check11_range)
  then have "?d \<notin> {0, 10, 11}"
    by auto
  with t d r show ?thesis
    by blast
qed

theorem get_dv_module_11_range_witness:
  "list_all is_decimal ''0019373700000001000500940144816060680935031''
   \<and> (\<exists>t d. dv11_total ''0019373700000001000500940144816060680935031'' = Inr t
          \<and> get_dv_module_11 ''0019373700000001000500940144816060680935031'' = Inr d
          \<and> d = (if 11 - t mod 11 \<in> {0, 10, 11} then 1 else 11 - t mod 11)
          \<and> 1 \<le> d \<and> d \<le> 9 \<and> d \<notin> {0, 10, 11})"
proof -
  have h: "list_all is_decimal ''0019373700000001000500940144816060680935031''"
    by (simp add: is_decimal_def)
  show ?thesis
    using h get_dv_module_11_range [OF h] by blast
qed

text \<open>
  Claim C1, as the specification states it, fails: the multiplier that
  \<^verbatim>\<open>__get_dv_module_11\<close> applies to the fourth digit is 9, where the
  specification's cycle has 10. On \<^verbatim>\<open>"0001"\<close> the running total is therefore 9
  and not 10.
\<close>

theorem dv11_multiplier_counterexample:
  "dv11_multiplier_at ''0001'' 3 = Inr 9 \<and> spec_mod11_multiplier 3 = 10
   \<and> dv11_total ''0001'' = Inr 9"
  by (simp add: dv11_multiplier_at_def dv11_total_def py_int_def is_decimal_def digit_val_def
      err_bind_def upt_rec numeral_3_eq_3)

text \<open>
  Claim C1, amended. For every string of decimal digits, \<^verbatim>\<open>__get_dv_module_11\<close>
  processes the digits left to right, and the multiplier applied to the digit at index
  \<open>i\<close> is the \<open>i\<close>-th element of the sequence 4, 3, 2, 9, 8, 7, 6, 5, 4, 3, 2, 9, ...
  of period 8: after 2 the multiplier is set to 10 and decremented before it is used, so
  10 is never applied. The total is the sum of the digits times these multipliers.
\<close>

theorem dv11_multiplier_cycle:
  assumes "list_all is_decimal number" and "i < length number"
  shows "dv11_multiplier_at number i = Inr ([4, 3, 2, 9, 8, 7, 6, 5] ! (i mod 8))
         \<and> dv11_total number =
             Inr (\<Sum>j<length number. digit_val (number ! j) * [4, 3, 2, 9, 8, 7, 6, 5] ! (j mod 8))"
  using dv11_multiplier_at_cycle [OF assms] dv11_total_sum [OF assms(1)]
  by simp

theorem dv11_multiplier_cycle_witness:
  "list_all is_decimal ''00193737000'' \<and> (10::nat) < length ''00193737000''
   \<and> dv11_multiplier_at ''00193737000'' 10 = Inr 2
   \<and> dv11_total ''00193737000'' = Inr 209"
proof -
  have h: "list_all is_decimal ''00193737000''"
    by (simp add: is_decimal_def)
  have l: "(10::nat) < length ''00193737000''"
    by simp
  show ?thesis
    using h l dv11_multiplier_cycle [OF h l]
    by (simp add: lessThan_nat_numeral lessThan_Suc digit_val_def)
qed

subsection \<open>Digit strings\<close>

lemma decimal_take: "list_all is_decimal s \<Longrightarrow> list_all is_decimal (take n s)"
  by (auto simp: list_all_iff dest: in_set_takeD)

lemma decimal_drop: "list_all is_decimal s \<Longrightarrow> list_all is_decimal (drop n s)"
  by (auto simp: list_all_iff dest: in_set_dropD)

lemma decimal_slice: "list_all is_decimal s \<Longrightarrow> list_all is_decimal (take n (drop k s))"
  by (intro decimal_take decimal_drop)

lemma decimal_butlast: "list_all is_decimal s \<Longrightarrow> list_all is_decimal (butlast s)"
  by (auto simp: list_all_iff dest: in_set_butlastD)

lemma decimal_last: "list_all is_decimal s \<Longrightarrow> s \<noteq> [] \<Longrightarrow> is_decimal (last s)"
  by (auto simp: list_all_iff)

lemma decimal_value_bounds:
  assumes "list_all is_decimal s" and "0 \<le> acc"
  shows "0 \<le> foldl (\<lambda>acc c. 10 * acc + digit_val c) acc s
         \<and> foldl (\<lambda>acc c. 10 * acc + digit_val c) acc s < (acc + 1) * 10 ^ length s"
  using assms
proof (induction s arbitrary: acc)
  case Nil
  then show ?case by simp
next
  case (Cons c s)
  from Cons.prems have c: "is_decimal c" and s: "list_all is_decimal s" by simp_all
  from digit_val_range [OF c] have d: "0 \<le> digit_val c" "digit_val c \<le> 9" by simp_all
  let ?a = "10 * acc + digit_val c"
  from d Cons.prems(2) have a: "0 \<le> ?a" by simp
  from Cons.IH [OF s a]
  have lo: "0 \<le> foldl (\<lambda>acc c. 10 * acc + digit_val c) ?a s"
    and hi: "foldl (\<lambda>acc c. 10 * acc + digit_val c) ?a s < (?a + 1) * 10 ^ length s"
    by simp_all
  have "?a + 1 \<le> (acc + 1) * 10" using d by simp
  then have "(?a + 1) * 10 ^ length s \<le> ((acc + 1) * 10) * 10 ^ length s"
    by (rule mult_right_mono) simp
  also have "((acc + 1) * 10) * 10 ^ length s = (acc + 1) * 10 ^ length (c # s)"
    by simp
  finally have "(?a + 1) * 10 ^ length s \<le> (acc + 1) * 10 ^ length (c # s)" .
  with hi have "foldl (\<lambda>acc c. 10 * acc + digit_val c) ?a s < (acc + 1) * 10 ^ length (c # s)"
    by (rule less_le_trans)
  with lo show ?case by simp
qed

subsection \<open>Decoding, matching and extraction\<close>

lemma get_expiry_ok:
  assumes "list_all is_decimal s" and "length s = 4"
  shows "\<exists>e. get_expiry s = Inr e"
proof -
  from assms(2) have ne: "s \<noteq> []" by auto
  from decimal_value_bounds [OF assms(1), of 0] assms(2)
  have "foldl (\<lambda>acc c. 10 * acc + digit_val c) 0 s < 10000" by simp
  then show ?thesis
    using assms(1) ne
    by (simp add: get_expiry_def py_int_def err_bind_Inr base_date_def date_max_def)
qed

lemma convert_value_factor_ok:
  assumes "list_all is_decimal s" and "s \<noteq> []"
  shows "\<exists>v. convert_value_factor s = Inr v"
  using assms by (simp add: convert_value_factor_def py_float_literal_def)

lemma line_field_ok:
  assumes "g \<noteq> []"
  shows "line_field g = Inr \<lparr>info = butlast g, field_dv = PyStr [last g]\<rparr>"
  using assms by (simp add: line_field_def last_char_def err_bind_Inr)

lemma match_here_short:
  "length s < sum_list ws \<Longrightarrow> match_here ws s = None"
  by (simp add: match_here_def)

lemma re_search_short:
  "length s < sum_list ws \<Longrightarrow> re_search ws s = None"
proof (induction s)
  case Nil
  then show ?case
    by (simp only: re_search.simps match_here_short)
next
  case (Cons c cs)
  from Cons.prems have "length cs < sum_list ws" by simp
  then have "re_search ws cs = None" by (rule Cons.IH)
  then show ?case
    by (simp only: re_search.simps match_here_short [OF Cons.prems] option.case)
qed

lemma re_search_exact:
  assumes "length s = sum_list ws"
  shows "re_search ws s = (if list_all is_decimal s then Some (take_groups ws s) else None)"
proof (cases s)
  case Nil
  with assms show ?thesis by (simp add: match_here_def)
next
  case (Cons c cs)
  with assms have "length cs < sum_list ws" by simp
  then have "re_search ws cs = None" by (rule re_search_short)
  with assms Cons show ?thesis
    by (simp add: match_here_def)
qed

lemma line_groups:
  assumes "length L = 47" and "list_all is_decimal L"
  shows "re_search [3, 1, 6, 11, 11, 1, 4, 10] L =
         Some [take 3 L, take 1 (drop 3 L), take 6 (drop 4 L), take 11 (drop 10 L),
               take 11 (drop 21 L), take 1 (drop 32 L), take 4 (drop 33 L),
               take 10 (drop 37 L)]"
  using assms by (simp add: re_search_exact)

lemma bar_groups:
  assumes "length B = 44" and "list_all is_decimal B"
  shows "re_search [3, 1, 1, 4, 10, 5, 10, 10] B =
         Some [take 3 B, take 1 (drop 3 B), take 1 (drop 4 B), take 4 (drop 5 B),
               take 10 (drop 9 B), take 5 (drop 19 B), take 10 (drop 24 B),
               take 10 (drop 34 B)]"
  using assms by (simp add: re_search_exact)

lemma get_info_from_line_record:
  assumes "length L = 47" and "list_all is_decimal L"
  shows "\<exists>e v. get_info_from_line L =
           Inr \<lparr>kind = Line,
                bank = take 3 L,
                currency = take 1 (drop 3 L),
                field_1 = \<lparr>info = butlast (take 6 (drop 4 L)),
                           field_dv = PyStr [last (take 6 (drop 4 L))]\<rparr>,
                field_2 = \<lparr>info = butlast (take 11 (drop 10 L)),
                           field_dv = PyStr [last (take 11 (drop 10 L))]\<rparr>,
                field_3 = \<lparr>info = butlast (take 11 (drop 21 L)),
                           field_dv = PyStr [last (take 11 (drop 21 L))]\<rparr>,
                dv = take 1 (drop 32 L),
                expiry_factor = take 4 (drop 33 L),
                expiry = e,
                value_factor = take 10 (drop 37 L),
                amount = v\<rparr>"
proof -
  have g3: "take 6 (drop 4 L) \<noteq> []" and g4: "take 11 (drop 10 L) \<noteq> []"
    and g5: "take 11 (drop 21 L) \<noteq> []" and g8: "take 10 (drop 37 L) \<noteq> []"
    using assms(1) by auto
  have "length (take 4 (drop 33 L)) = 4" using assms(1) by simp
  with get_expiry_ok [OF decimal_slice [OF assms(2)]]
  obtain e where e: "get_expiry (take 4 (drop 33 L)) = Inr e" by blast
  from convert_value_factor_ok [OF decimal_slice [OF assms(2)] g8]
  obtain v where v: "convert_value_factor (take 10 (drop 37 L)) = Inr v" by blast
  show ?thesis
    unfolding get_info_from_line_def line_groups [OF assms]
    by (simp add: group_def line_field_ok [OF g3] line_field_ok [OF g4] line_field_ok [OF g5]
        e v err_bind_Inr)
qed

lemma get_info_from_bar_record:
  assumes "length B = 44" and "list_all is_decimal B"
  shows "\<exists>e v. get_info_from_bar B =
           Inr \<lparr>kind = Bar,
                bank = take 3 B,
                currency = take 1 (drop 3 B),
                field_1 = \<lparr>info = take 5 (drop 19 B),
                           field_dv = PyInt (spec_checkDigitMod10
                             (take 3 B @ take 1 (drop 3 B) @ take 5 (drop 19 B)))\<rparr>,
                field_2 = \<lparr>info = take 10 (drop 24 B),
                           field_dv = PyInt (spec_checkDigitMod10 (take 10 (drop 24 B)))\<rparr>,
                field_3 = \<lparr>info = take 10 (drop 34 B),
                           field_dv = PyInt (spec_checkDigitMod10 (take 10 (drop 34 B)))\<rparr>,
                dv = take 1 (drop 4 B),
                expiry_factor = take 4 (drop 5 B),
                expiry = e,
                value_factor = take 10 (drop 9 B),
                amount = v\<rparr>"
proof -
  have g5: "take 10 (drop 9 B) \<noteq> []"
    using assms(1) by auto
  have "length (take 4 (drop 5 B)) = 4" using assms(1) by simp
  with get_expiry_ok [OF decimal_slice [OF assms(2)]]
  obtain e where e: "get_expiry (take 4 (drop 5 B)) = Inr e" by blast
  from convert_value_factor_ok [OF decimal_slice [OF assms(2)] g5]
  obtain v where v: "convert_value_factor (take 10 (drop 9 B)) = Inr v" by blast
  have d1: "list_all is_decimal (take 3 B @ take 1 (drop 3 B) @ take 5 (drop 19 B))"
    using decimal_take [OF assms(2)] decimal_slice [OF assms(2)] by simp
  note r1 = get_dv_module_10_spec [OF d1]
  show ?thesis
    unfolding get_info_from_bar_def bar_groups [OF assms]
    by (simp add: group_def e v err_bind_Inr r1 [simplified]
        get_dv_module_10_spec [OF decimal_slice [OF assms(2)]])
qed


lemma valid_length_eq:
  "valid_length n = (if n = 44 then Some Bar else if n = 47 then Some Line else None)"
  by (simp add: valid_length_def)

lemma code_match_str:
  "code_match (PyStr s) =
     (if length (filter isdigit s) = 44
        then Inr \<lparr>code_type = Bar, code_value = filter isdigit s\<rparr>
      else if length (filter isdigit s) = 47
        then Inr \<lparr>code_type = Line, code_value = filter isdigit s\<rparr>
      else Inl InvalidLength)"
  by (simp add: valid_length_eq Let_def)

lemma code_match_not_str:
  "(\<forall>s. v \<noteq> PyStr s) \<Longrightarrow> code_match v = Inl InvalidInput"
  by (cases v) simp_all

lemma FebrabanCode_str:
  "FebrabanCode (PyStr s) =
     (if length (filter isdigit s) = 44 then get_info_from_bar (filter isdigit s)
      else if length (filter isdigit s) = 47 then get_info_from_line (filter isdigit s)
      else Inl InvalidLength)"
  unfolding FebrabanCode_def code_match_str
  by (simp add: err_bind_def get_info_from_code_def)

lemma get_info_from_line_malformed:
  assumes "length L = 47" and "\<not> list_all is_decimal L"
  shows "get_info_from_line L = Inl MalformedLayout"
  using assms by (simp add: get_info_from_line_def re_search_exact)

lemma get_info_from_bar_malformed:
  assumes "length B = 44" and "\<not> list_all is_decimal B"
  shows "get_info_from_bar B = Inl MalformedLayout"
  using assms by (simp add: get_info_from_bar_def re_search_exact)

subsection \<open>Slices, encoding and validation\<close>

lemma slice_drop:
  "m = a + k \<Longrightarrow> take a (drop k xs) @ drop m xs = drop k xs"
  by (metis append_take_drop_id drop_drop)

lemma butlast_last_append:
  "g \<noteq> [] \<Longrightarrow> butlast g @ [last g] @ rest = g @ rest"
  by simp

lemma bar_slices:
  assumes "length B = 44"
  shows "take 3 B @ take 1 (drop 3 B) @ take 1 (drop 4 B) @ take 4 (drop 5 B)
         @ take 10 (drop 9 B) @ take 5 (drop 19 B) @ take 10 (drop 24 B)
         @ take 10 (drop 34 B) = B"
proof -
  have e8: "take 10 (drop 34 B) = drop 34 B" using assms by simp
  have e7: "take 10 (drop 24 B) @ drop 34 B = drop 24 B" by (rule slice_drop) simp
  have e6: "take 5 (drop 19 B) @ drop 24 B = drop 19 B" by (rule slice_drop) simp
  have e5: "take 10 (drop 9 B) @ drop 19 B = drop 9 B" by (rule slice_drop) simp
  have e4: "take 4 (drop 5 B) @ drop 9 B = drop 5 B" by (rule slice_drop) simp
  have e3: "take 1 (drop 4 B) @ drop 5 B = drop 4 B" by (rule slice_drop) simp
  have e2: "take 1 (drop 3 B) @ drop 4 B = drop 3 B" by (rule slice_drop) simp
  show ?thesis
    by (simp only: e8 e7 e6 e5 e4 e3 e2 append_take_drop_id)
qed

lemma line_slices:
  assumes "length L = 47"
  shows "take 3 L @ take 1 (drop 3 L) @ take 6 (drop 4 L) @ take 11 (drop 10 L)
         @ take 11 (drop 21 L) @ take 1 (drop 32 L) @ take 4 (drop 33 L)
         @ take 10 (drop 37 L) = L"
proof -
  have e8: "take 10 (drop 37 L) = drop 37 L" using assms by simp
  have e7: "take 4 (drop 33 L) @ drop 37 L = drop 33 L" by (rule slice_drop) simp
  have e6: "take 1 (drop 32 L) @ drop 33 L = drop 32 L" by (rule slice_drop) simp
  have e5: "take 11 (drop 21 L) @ drop 32 L = drop 21 L" by (rule slice_drop) simp
  have e4: "take 11 (drop 10 L) @ drop 21 L = drop 10 L" by (rule slice_drop) simp
  have e3: "take 6 (drop 4 L) @ drop 10 L = drop 4 L" by (rule slice_drop) simp
  have e2: "take 1 (drop 3 L) @ drop 4 L = drop 3 L" by (rule slice_drop) simp
  show ?thesis
    by (simp only: e8 e7 e6 e5 e4 e3 e2 append_take_drop_id)
qed

lemma get_dv_module_11_ok:
  assumes "list_all is_decimal s"
  shows "\<exists>d. get_dv_module_11 s = Inr d"
  using get_dv_module_11_total [OF dv11_total_sum [OF assms]] by blast

lemma py_int_ok:
  assumes "list_all is_decimal s" and "s \<noteq> []"
  shows "\<exists>n. py_int s = Inr n"
  using assms by (simp add: py_int_def)

lemma validate_eq:
  assumes "get_dv_module_10 (bank c @ currency c @ info (field_1 c)) = Inr d1"
    and "int_of (field_dv (field_1 c)) = Inr s1"
    and "get_dv_module_10 (info (field_2 c)) = Inr d2"
    and "int_of (field_dv (field_2 c)) = Inr s2"
    and "get_dv_module_10 (info (field_3 c)) = Inr d3"
    and "int_of (field_dv (field_3 c)) = Inr s3"
    and "get_dv_module_11 (take 4 (get_bar c) @ drop 5 (get_bar c)) = Inr d4"
    and "py_int (dv c) = Inr s4"
  shows "validate c = Inr (d1 = s1 \<and> d2 = s2 \<and> d3 = s3 \<and> d4 = s4)"
  unfolding validate_def Let_def
  by (simp add: assms err_bind_Inr)

lemma filter_isdigit_decimal:
  "list_all is_decimal s \<Longrightarrow> filter isdigit s = s"
  by (induction s) (simp_all add: isdigit_def)

lemma butlast_slice:
  "0 < n \<Longrightarrow> n + k \<le> length xs \<Longrightarrow> butlast (take n (drop k xs)) = take (n - 1) (drop k xs)"
  by (simp add: butlast_take)

lemma last_slice:
  assumes "0 < n" and "n + k \<le> length xs"
  shows "[last (take n (drop k xs))] = take 1 (drop (n + k - 1) xs)"
proof -
  obtain m where n: "n = Suc m" using assms(1) by (cases n) auto
  have m: "m < length (drop k xs)" using assms(2) n by simp
  have "take n (drop k xs) = take m (drop k xs) @ [drop k xs ! m]"
    unfolding n by (rule take_Suc_conv_app_nth [OF m])
  then have l: "last (take n (drop k xs)) = xs ! (k + m)"
    using assms(2) n by simp
  have "m + k < length xs" using assms(2) n by simp
  then have "take 1 (drop (m + k) xs) = [xs ! (m + k)]"
    by (simp add: take_Suc_conv_app_nth)
  with l n show ?thesis by (simp add: add.commute)
qed

subsection \<open>Constructed records\<close>

lemma constructed_cases:
  assumes "FebrabanCode v = Inr c"
  shows "\<exists>s. v = PyStr s \<and> list_all is_decimal (filter isdigit s)
           \<and> (length (filter isdigit s) = 44 \<and> get_info_from_bar (filter isdigit s) = Inr c
              \<or> length (filter isdigit s) = 47 \<and> get_info_from_line (filter isdigit s) = Inr c)"
proof (cases v)
  case (PyStr s)
  let ?code = "filter isdigit s"
  from assms PyStr have r: "FebrabanCode (PyStr s) = Inr c" by simp
  show ?thesis
  proof (cases "length ?code = 44")
    case True
    with r have b: "get_info_from_bar ?code = Inr c" by (simp add: FebrabanCode_str)
    have "list_all is_decimal ?code"
      using get_info_from_bar_malformed [OF True] b by auto
    with True b PyStr show ?thesis by blast
  next
    case False
    note n44 = this
    show ?thesis
    proof (cases "length ?code = 47")
      case True
      with r n44 have l: "get_info_from_line ?code = Inr c" by (simp add: FebrabanCode_str)
      have "list_all is_decimal ?code"
        using get_info_from_line_malformed [OF True] l by auto
      with True l PyStr show ?thesis by blast
    next
      case False
      with r n44 show ?thesis by (simp add: FebrabanCode_str)
    qed
  qed
next
  case (PyInt i)
  with assms show ?thesis by (simp add: FebrabanCode_def err_bind_def)
next
  case PyNone
  with assms show ?thesis by (simp add: FebrabanCode_def err_bind_def)
qed

lemma bar_checks:
  assumes len: "length B = 44" and dec: "list_all is_decimal B"
    and c: "get_info_from_bar B = Inr c"
  shows "\<exists>d1 d2 d3 d4 s4.
           get_dv_module_10 (bank c @ currency c @ info (field_1 c)) = Inr d1
         \<and> field_dv (field_1 c) = PyInt d1
         \<and> get_dv_module_10 (info (field_2 c)) = Inr d2
         \<and> field_dv (field_2 c) = PyInt d2
         \<and> get_dv_module_10 (info (field_3 c)) = Inr d3
         \<and> field_dv (field_3 c) = PyInt d3
         \<and> get_dv_module_11 (take 4 (get_bar c) @ drop 5 (get_bar c)) = Inr d4
         \<and> py_int (dv c) = Inr s4
         \<and> get_bar c = B
         \<and> kind c = Bar
         \<and> bank c = take 3 B \<and> currency c = take 1 (drop 3 B)
         \<and> dv c = take 1 (drop 4 B)
         \<and> info (field_1 c) = take 5 (drop 19 B)
         \<and> info (field_2 c) = take 10 (drop 24 B)
         \<and> info (field_3 c) = take 10 (drop 34 B)"
proof -
  from get_info_from_bar_record [OF len dec] c obtain e v where
    r: "c = \<lparr>kind = Bar,
                bank = take 3 B,
                currency = take 1 (drop 3 B),
                field_1 = \<lparr>info = take 5 (drop 19 B),
                           field_dv = PyInt (spec_checkDigitMod10
                             (take 3 B @ take 1 (drop 3 B) @ take 5 (drop 19 B)))\<rparr>,
                field_2 = \<lparr>info = take 10 (drop 24 B),
                           field_dv = PyInt (spec_checkDigitMod10 (take 10 (drop 24 B)))\<rparr>,
                field_3 = \<lparr>info = take 10 (drop 34 B),
                           field_dv = PyInt (spec_checkDigitMod10 (take 10 (drop 34 B)))\<rparr>,
                dv = take 1 (drop 4 B),
                expiry_factor = take 4 (drop 5 B),
                expiry = e,
                value_factor = take 10 (drop 9 B),
                amount = v\<rparr>"
    by auto
  have bar: "get_bar c = B"
    unfolding r get_bar_def by (simp only: code_info.simps code_field.simps bar_slices [OF len])
  have d1: "list_all is_decimal (take 3 B @ take 1 (drop 3 B) @ take 5 (drop 19 B))"
    using decimal_take [OF dec] decimal_slice [OF dec] by simp
  have f1: "get_dv_module_10 (bank c @ currency c @ info (field_1 c)) =
            Inr (spec_checkDigitMod10 (take 3 B @ take 1 (drop 3 B) @ take 5 (drop 19 B)))"
    unfolding r by (simp only: code_info.simps code_field.simps get_dv_module_10_spec [OF d1])
  have f2: "get_dv_module_10 (info (field_2 c)) = Inr (spec_checkDigitMod10 (take 10 (drop 24 B)))"
    unfolding r
    by (simp only: code_info.simps code_field.simps get_dv_module_10_spec [OF decimal_slice [OF dec]])
  have f3: "get_dv_module_10 (info (field_3 c)) = Inr (spec_checkDigitMod10 (take 10 (drop 34 B)))"
    unfolding r
    by (simp only: code_info.simps code_field.simps get_dv_module_10_spec [OF decimal_slice [OF dec]])
  have "list_all is_decimal (take 4 B @ drop 5 B)"
    using decimal_take [OF dec] decimal_drop [OF dec] by simp
  from get_dv_module_11_ok [OF this] bar obtain d4 where
    f4: "get_dv_module_11 (take 4 (get_bar c) @ drop 5 (get_bar c)) = Inr d4" by auto
  have "take 1 (drop 4 B) \<noteq> []" using len by auto
  from py_int_ok [OF decimal_slice [OF dec] this] obtain s4 where
    "py_int (take 1 (drop 4 B)) = Inr s4" by blast
  then have f5: "py_int (dv c) = Inr s4" unfolding r by simp
  show ?thesis
    using f1 f2 f3 f4 f5 bar by (simp add: r)
qed

lemma line_checks:
  assumes len: "length L = 47" and dec: "list_all is_decimal L"
    and c: "get_info_from_line L = Inr c"
  shows "\<exists>d1 d2 d3 d4 s1 s2 s3 s4.
           get_dv_module_10 (bank c @ currency c @ info (field_1 c)) = Inr d1
         \<and> int_of (field_dv (field_1 c)) = Inr s1
         \<and> get_dv_module_10 (info (field_2 c)) = Inr d2
         \<and> int_of (field_dv (field_2 c)) = Inr s2
         \<and> get_dv_module_10 (info (field_3 c)) = Inr d3
         \<and> int_of (field_dv (field_3 c)) = Inr s3
         \<and> get_dv_module_11 (take 4 (get_bar c) @ drop 5 (get_bar c)) = Inr d4
         \<and> py_int (dv c) = Inr s4
         \<and> length (get_bar c) = 44
         \<and> take 1 (drop 4 (get_bar c)) = dv c
         \<and> get_line c False = L
         \<and> kind c = Line"
proof -
  let ?g3 = "take 6 (drop 4 L)" and ?g4 = "take 11 (drop 10 L)" and ?g5 = "take 11 (drop 21 L)"
  from get_info_from_line_record [OF len dec] c obtain e v where
    r: "c = \<lparr>kind = Line,
                bank = take 3 L,
                currency = take 1 (drop 3 L),
                field_1 = \<lparr>info = butlast ?g3, field_dv = PyStr [last ?g3]\<rparr>,
                field_2 = \<lparr>info = butlast ?g4, field_dv = PyStr [last ?g4]\<rparr>,
                field_3 = \<lparr>info = butlast ?g5, field_dv = PyStr [last ?g5]\<rparr>,
                dv = take 1 (drop 32 L),
                expiry_factor = take 4 (drop 33 L),
                expiry = e,
                value_factor = take 10 (drop 37 L),
                amount = v\<rparr>"
    by auto
  have ne: "?g3 \<noteq> []" "?g4 \<noteq> []" "?g5 \<noteq> []" "take 1 (drop 32 L) \<noteq> []"
    using len by auto
  have dg: "list_all is_decimal ?g3" "list_all is_decimal ?g4" "list_all is_decimal ?g5"
    by (rule decimal_slice [OF dec])+
  have line: "get_line c False = L"
  proof -
    have "get_line c False =
          take 3 L @ take 1 (drop 3 L) @ (butlast ?g3 @ [last ?g3] @
          (butlast ?g4 @ [last ?g4] @ (butlast ?g5 @ [last ?g5] @
          take 1 (drop 32 L) @ take 4 (drop 33 L) @ take 10 (drop 37 L))))"
      unfolding r get_line_def by simp
    also have "\<dots> = take 3 L @ take 1 (drop 3 L) @ ?g3 @ ?g4 @ ?g5 @
          take 1 (drop 32 L) @ take 4 (drop 33 L) @ take 10 (drop 37 L)"
      by (simp only: butlast_last_append [OF ne(1)] butlast_last_append [OF ne(2)]
          butlast_last_append [OF ne(3)])
    also have "\<dots> = L" by (rule line_slices [OF len])
    finally show ?thesis .
  qed
  have d1: "list_all is_decimal (take 3 L @ take 1 (drop 3 L) @ butlast ?g3)"
    using decimal_take [OF dec] decimal_slice [OF dec] decimal_butlast [OF dg(1)] by simp
  have f1: "get_dv_module_10 (bank c @ currency c @ info (field_1 c)) =
            Inr (spec_checkDigitMod10 (take 3 L @ take 1 (drop 3 L) @ butlast ?g3))"
    unfolding r by (simp only: code_info.simps code_field.simps get_dv_module_10_spec [OF d1])
  have f2: "get_dv_module_10 (info (field_2 c)) = Inr (spec_checkDigitMod10 (butlast ?g4))"
    unfolding r
    by (simp only: code_info.simps code_field.simps
        get_dv_module_10_spec [OF decimal_butlast [OF dg(2)]])
  have f3: "get_dv_module_10 (info (field_3 c)) = Inr (spec_checkDigitMod10 (butlast ?g5))"
    unfolding r
    by (simp only: code_info.simps code_field.simps
        get_dv_module_10_spec [OF decimal_butlast [OF dg(3)]])
  have s1: "int_of (field_dv (field_1 c)) = Inr (digit_val (last ?g3))"
    unfolding r by (simp add: py_int_digit [OF decimal_last [OF dg(1) ne(1)]])
  have s2: "int_of (field_dv (field_2 c)) = Inr (digit_val (last ?g4))"
    unfolding r by (simp add: py_int_digit [OF decimal_last [OF dg(2) ne(2)]])
  have s3: "int_of (field_dv (field_3 c)) = Inr (digit_val (last ?g5))"
    unfolding r by (simp add: py_int_digit [OF decimal_last [OF dg(3) ne(3)]])
  have bar: "get_bar c = take 3 L @ take 1 (drop 3 L) @ take 1 (drop 32 L) @ take 4 (drop 33 L)
        @ take 10 (drop 37 L) @ butlast ?g3 @ butlast ?g4 @ butlast ?g5"
    unfolding r get_bar_def by simp
  have blen: "length (get_bar c) = 44"
    unfolding bar using len by simp
  have bdec: "list_all is_decimal (get_bar c)"
    unfolding bar
    using decimal_take [OF dec] decimal_slice [OF dec] decimal_butlast [OF dg(1)]
      decimal_butlast [OF dg(2)] decimal_butlast [OF dg(3)]
    by simp
  have "list_all is_decimal (take 4 (get_bar c) @ drop 5 (get_bar c))"
    using decimal_take [OF bdec] decimal_drop [OF bdec] by simp
  from get_dv_module_11_ok [OF this] obtain d4 where
    f4: "get_dv_module_11 (take 4 (get_bar c) @ drop 5 (get_bar c)) = Inr d4" by blast
  from py_int_ok [OF decimal_slice [OF dec] ne(4)] obtain s4 where
    "py_int (take 1 (drop 32 L)) = Inr s4" by blast
  then have f5: "py_int (dv c) = Inr s4" unfolding r by simp
  have pos: "take 1 (drop 4 (get_bar c)) = dv c"
    unfolding bar using len by (simp add: r)
  show ?thesis
    using f1 f2 f3 s1 s2 s3 f4 f5 blen pos line by (simp add: r)
qed

subsection \<open>Claims about matching, extraction, encoding and validation\<close>

text \<open>
  Claim C8. The matcher strips every character that is not a digit and classifies by the
  length of what remains: \<^verbatim>\<open>__code_match\<close>, and with it the constructor, fails with
  \<open>InvalidLength\<close> exactly when the number of digits is neither 44 nor 47 (so for 43
  and for 48); 44 digits are classified Bar and 47 digits Line, both with the cleaned
  string as value; an argument that is not a string fails with \<open>InvalidInput\<close>.
\<close>

theorem code_match_classification:
  "(code_match (PyStr s) = Inl InvalidLength
      \<longleftrightarrow> length (filter isdigit s) \<noteq> 44 \<and> length (filter isdigit s) \<noteq> 47)
   \<and> (FebrabanCode (PyStr s) = Inl InvalidLength
      \<longleftrightarrow> length (filter isdigit s) \<noteq> 44 \<and> length (filter isdigit s) \<noteq> 47)
   \<and> (length (filter isdigit s) = 43 \<or> length (filter isdigit s) = 48
      \<longrightarrow> FebrabanCode (PyStr s) = Inl InvalidLength)
   \<and> (length (filter isdigit b) = 44
      \<longrightarrow> code_match (PyStr b) = Inr \<lparr>code_type = Bar, code_value = filter isdigit b\<rparr>)
   \<and> (length (filter isdigit l) = 47
      \<longrightarrow> code_match (PyStr l) = Inr \<lparr>code_type = Line, code_value = filter isdigit l\<rparr>)
   \<and> ((\<forall>t. v \<noteq> PyStr t)
      \<longrightarrow> code_match v = Inl InvalidInput \<and> FebrabanCode v = Inl InvalidInput)"
proof -
  have bar: "get_info_from_bar (filter isdigit s) \<noteq> Inl InvalidLength"
    if "length (filter isdigit s) = 44"
  proof (cases "list_all is_decimal (filter isdigit s)")
    case True
    from get_info_from_bar_record [OF that True] show ?thesis by auto
  next
    case False
    from get_info_from_bar_malformed [OF that False] show ?thesis by simp
  qed
  have line: "get_info_from_line (filter isdigit s) \<noteq> Inl InvalidLength"
    if "length (filter isdigit s) = 47"
  proof (cases "list_all is_decimal (filter isdigit s)")
    case True
    from get_info_from_line_record [OF that True] show ?thesis by auto
  next
    case False
    from get_info_from_line_malformed [OF that False] show ?thesis by simp
  qed
  have c1: "code_match (PyStr s) = Inl InvalidLength
      \<longleftrightarrow> length (filter isdigit s) \<noteq> 44 \<and> length (filter isdigit s) \<noteq> 47"
    unfolding code_match_str by simp
  have c2: "FebrabanCode (PyStr s) = Inl InvalidLength
      \<longleftrightarrow> length (filter isdigit s) \<noteq> 44 \<and> length (filter isdigit s) \<noteq> 47"
    using bar line by (simp add: FebrabanCode_str)
  have c3: "length (filter isdigit s) = 43 \<or> length (filter isdigit s) = 48
      \<longrightarrow> FebrabanCode (PyStr s) = Inl InvalidLength"
    using c2 by auto
  have c4: "length (filter isdigit b) = 44
      \<longrightarrow> code_match (PyStr b) = Inr \<lparr>code_type = Bar, code_value = filter isdigit b\<rparr>"
    unfolding code_match_str by simp
  have c5: "length (filter isdigit l) = 47
      \<longrightarrow> code_match (PyStr l) = Inr \<lparr>code_type = Line, code_value = filter isdigit l\<rparr>"
    unfolding code_match_str by simp
  have c6: "(\<forall>t. v \<noteq> PyStr t)
      \<longrightarrow> code_match v = Inl InvalidInput \<and> FebrabanCode v = Inl InvalidInput"
    by (simp add: code_match_not_str FebrabanCode_def err_bind_Inl)
  from c1 c2 c3 c4 c5 c6 show ?thesis by blast
qed

theorem code_match_classification_witness:
  "length (filter isdigit ''0019337370000000100050094014481606068093503'') = 43
   \<and> FebrabanCode (PyStr ''0019337370000000100050094014481606068093503'') = Inl InvalidLength
   \<and> code_match (PyStr ''0019337370000000100050094014481606068093503'') = Inl InvalidLength
   \<and> length (filter isdigit ''0019.3373700000001000500940144-816060680935031'') = 44
   \<and> code_match (PyStr ''0019.3373700000001000500940144-816060680935031'') =
       Inr \<lparr>code_type = Bar, code_value = ''00193373700000001000500940144816060680935031''\<rparr>
   \<and> length (filter isdigit ''00190.50095 40144.816069 06809.350314 3 37370000000100'') = 47
   \<and> code_match (PyStr ''00190.50095 40144.816069 06809.350314 3 37370000000100'') =
       Inr \<lparr>code_type = Line, code_value = ''00190500954014481606906809350314337370000000100''\<rparr>
   \<and> (\<forall>t. PyInt 44 \<noteq> PyStr t)
   \<and> code_match (PyInt 44) = Inl InvalidInput \<and> FebrabanCode (PyInt 44) = Inl InvalidInput"
proof -
  have h1: "length (filter isdigit ''0019337370000000100050094014481606068093503'') = 43"
    by code_simp
  have h2: "filter isdigit ''0019.3373700000001000500940144-816060680935031'' =
            ''00193373700000001000500940144816060680935031''"
    by code_simp
  have h3: "filter isdigit ''00190.50095 40144.816069 06809.350314 3 37370000000100'' =
            ''00190500954014481606906809350314337370000000100''"
    by code_simp
  have h4: "\<forall>t. PyInt 44 \<noteq> PyStr t" by simp
  show ?thesis
    using h1 h2 h3 h4
      code_match_classification [of "''0019337370000000100050094014481606068093503''"
        "''0019.3373700000001000500940144-816060680935031''"
        "''00190.50095 40144.816069 06809.350314 3 37370000000100''" "PyInt 44"]
    by simp
qed

text \<open>
  Claim C5. Construction followed by re-encoding is the identity: for every string \<open>B\<close> of
  44 decimal digits the constructor succeeds and \<^verbatim>\<open>get_bar()\<close> returns \<open>B\<close>; for every
  string \<open>L\<close> of 47 decimal digits the constructor succeeds and
  \<^verbatim>\<open>get_line(formatted=False)\<close> returns \<open>L\<close>.
\<close>

theorem construct_encode_roundtrip:
  "(length B = 44 \<and> list_all is_decimal B
      \<longrightarrow> (\<exists>c. FebrabanCode (PyStr B) = Inr c \<and> get_bar c = B))
   \<and> (length L = 47 \<and> list_all is_decimal L
      \<longrightarrow> (\<exists>c. FebrabanCode (PyStr L) = Inr c \<and> get_line c False = L))"
proof (intro conjI impI)
  assume "length B = 44 \<and> list_all is_decimal B"
  then have len: "length B = 44" and dec: "list_all is_decimal B" by simp_all
  from get_info_from_bar_record [OF len dec] obtain c where
    c: "get_info_from_bar B = Inr c" by blast
  from bar_checks [OF len dec c] have "get_bar c = B" by blast
  moreover have "FebrabanCode (PyStr B) = Inr c"
    using len c by (simp add: FebrabanCode_str filter_isdigit_decimal [OF dec])
  ultimately show "\<exists>c. FebrabanCode (PyStr B) = Inr c \<and> get_bar c = B" by blast
next
  assume "length L = 47 \<and> list_all is_decimal L"
  then have len: "length L = 47" and dec: "list_all is_decimal L" by simp_all
  from get_info_from_line_record [OF len dec] obtain c where
    c: "get_info_from_line L = Inr c" by blast
  from line_checks [OF len dec c] have "get_line c False = L" by blast
  moreover have "FebrabanCode (PyStr L) = Inr c"
    using len c by (simp add: FebrabanCode_str filter_isdigit_decimal [OF dec])
  ultimately show "\<exists>c. FebrabanCode (PyStr L) = Inr c \<and> get_line c False = L" by blast
qed

theorem construct_encode_roundtrip_witness:
  "length ''00193373700000001000500940144816060680935031'' = 44
   \<and> list_all is_decimal ''00193373700000001000500940144816060680935031''
   \<and> (\<exists>c. FebrabanCode (PyStr ''00193373700000001000500940144816060680935031'') = Inr c
          \<and> get_bar c = ''00193373700000001000500940144816060680935031'')
   \<and> length ''00190500954014481606906809350314337370000000100'' = 47
   \<and> list_all is_decimal ''00190500954014481606906809350314337370000000100''
   \<and> (\<exists>c. FebrabanCode (PyStr ''00190500954014481606906809350314337370000000100'') = Inr c
          \<and> get_line c False = ''00190500954014481606906809350314337370000000100'')"
proof -
  have b: "length ''00193373700000001000500940144816060680935031'' = 44
           \<and> list_all is_decimal ''00193373700000001000500940144816060680935031''"
    by (simp add: is_decimal_def)
  have l: "length ''00190500954014481606906809350314337370000000100'' = 47
           \<and> list_all is_decimal ''00190500954014481606906809350314337370000000100''"
    by (simp add: is_decimal_def)
  from construct_encode_roundtrip [of "''00193373700000001000500940144816060680935031''"
      "''00190500954014481606906809350314337370000000100''"] b l
  show ?thesis by blast
qed

text \<open>
  Claim C2, as the specification states it, fails: the third group of the line pattern is
  \<^verbatim>\<open>(\d{6})\<close>, so the field 1 block has 6 digits, 5 of payload and 1 check digit,
  and not 7. On the line below the payload of field 1 is \<^verbatim>\<open>05009\<close>, not the six
  digits \<^verbatim>\<open>050095\<close>, and field 2 starts at offset 10, not 11.
\<close>

theorem line_layout_counterexample:
  "map_sum id (info \<circ> field_1)
     (get_info_from_line ''00190500954014481606906809350314337370000000100'') = Inr ''05009''
   \<and> take 6 (drop 4 ''00190500954014481606906809350314337370000000100'') = ''050095''
   \<and> map_sum id (info \<circ> field_2)
     (get_info_from_line ''00190500954014481606906809350314337370000000100'') = Inr ''4014481606''
   \<and> take 10 (drop 11 ''00190500954014481606906809350314337370000000100'') = ''0144816069''"
  by code_simp

text \<open>
  Claim C2, amended. For every string of 47 decimal digits, \<^verbatim>\<open>__get_info_from_line\<close>
  decomposes it into consecutive fixed-width slices: bank (3 digits), currency (1), the
  field 1 block of 6 digits (5 of payload and 1 trailing check digit), the field 2 block
  of 11 digits (10 + 1), the field 3 block of 11 digits (10 + 1), the overall check digit
  (1), the expiry factor (4) and the value factor (10).
\<close>

theorem line_layout:
  assumes "length L = 47" and "list_all is_decimal L"
  shows "\<exists>c. get_info_from_line L = Inr c
           \<and> kind c = Line
           \<and> bank c = take 3 L
           \<and> currency c = take 1 (drop 3 L)
           \<and> info (field_1 c) = take 5 (drop 4 L)
           \<and> field_dv (field_1 c) = PyStr (take 1 (drop 9 L))
           \<and> info (field_2 c) = take 10 (drop 10 L)
           \<and> field_dv (field_2 c) = PyStr (take 1 (drop 20 L))
           \<and> info (field_3 c) = take 10 (drop 21 L)
           \<and> field_dv (field_3 c) = PyStr (take 1 (drop 31 L))
           \<and> dv c = take 1 (drop 32 L)
           \<and> expiry_factor c = take 4 (drop 33 L)
           \<and> value_factor c = take 10 (drop 37 L)"
proof -
  have b1: "butlast (take 6 (drop 4 L)) = take 5 (drop 4 L)"
    using butlast_slice [of 6 4 L] assms(1) by simp
  have b2: "butlast (take 11 (drop 10 L)) = take 10 (drop 10 L)"
    using butlast_slice [of 11 10 L] assms(1) by simp
  have b3: "butlast (take 11 (drop 21 L)) = take 10 (drop 21 L)"
    using butlast_slice [of 11 21 L] assms(1) by simp
  have l1: "[last (take 6 (drop 4 L))] = take 1 (drop 9 L)"
    using last_slice [of 6 4 L] assms(1) by simp
  have l2: "[last (take 11 (drop 10 L))] = take 1 (drop 20 L)"
    using last_slice [of 11 10 L] assms(1) by simp
  have l3: "[last (take 11 (drop 21 L))] = take 1 (drop 31 L)"
    using last_slice [of 11 21 L] assms(1) by simp
  from get_info_from_line_record [OF assms] obtain e v where
    "get_info_from_line L =
           Inr \<lparr>kind = Line,
                bank = take 3 L,
                currency = take 1 (drop 3 L),
                field_1 = \<lparr>info = butlast (take 6 (drop 4 L)),
                           field_dv = PyStr [last (take 6 (drop 4 L))]\<rparr>,
                field_2 = \<lparr>info = butlast (take 11 (drop 10 L)),
                           field_dv = PyStr [last (take 11 (drop 10 L))]\<rparr>,
                field_3 = \<lparr>info = butlast (take 11 (drop 21 L)),
                           field_dv = PyStr [last (take 11 (drop 21 L))]\<rparr>,
                dv = take 1 (drop 32 L),
                expiry_factor = take 4 (drop 33 L),
                expiry = e,
                value_factor = take 10 (drop 37 L),
                amount = v\<rparr>"
    by blast
  then show ?thesis
    unfolding b1 b2 b3 l1 l2 l3 by simp
qed

theorem line_layout_witness:
  "length ''00190500954014481606906809350314337370000000100'' = 47
   \<and> list_all is_decimal ''00190500954014481606906809350314337370000000100''
   \<and> (\<exists>c. get_info_from_line ''00190500954014481606906809350314337370000000100'' = Inr c
        \<and> kind c = Line
        \<and> bank c = ''001''
        \<and> currency c = ''9''
        \<and> info (field_1 c) = ''05009''
        \<and> field_dv (field_1 c) = PyStr ''5''
        \<and> info (field_2 c) = ''4014481606''
        \<and> field_dv (field_2 c) = PyStr ''9''
        \<and> info (field_3 c) = ''0680935031''
        \<and> field_dv (field_3 c) = PyStr ''4''
        \<and> dv c = ''3''
        \<and> expiry_factor c = ''3737''
        \<and> value_factor c = ''0000000100'')"
proof -
  have h1: "length ''00190500954014481606906809350314337370000000100'' = 47"
    by simp
  have h2: "list_all is_decimal ''00190500954014481606906809350314337370000000100''"
    by (simp add: is_decimal_def)
  show ?thesis
    using h1 h2 line_layout [OF h1 h2] by simp
qed

text \<open>
  Claim C4. For every string of 44 decimal digits the three field check digits stored in
  the constructed record are not read from the input but computed: that of field 1 is
  \<^verbatim>\<open>__get_dv_module_10\<close> of bank, currency and the payload of field 1 together, those
  of fields 2 and 3 are \<^verbatim>\<open>__get_dv_module_10\<close> of their payloads alone.
\<close>

theorem bar_check_digits_derived:
  assumes "length B = 44" and "list_all is_decimal B"
  shows "\<exists>c d1 d2 d3. FebrabanCode (PyStr B) = Inr c
           \<and> bank c = take 3 B
           \<and> currency c = take 1 (drop 3 B)
           \<and> info (field_1 c) = take 5 (drop 19 B)
           \<and> info (field_2 c) = take 10 (drop 24 B)
           \<and> info (field_3 c) = take 10 (drop 34 B)
           \<and> get_dv_module_10 (bank c @ currency c @ info (field_1 c)) = Inr d1
           \<and> field_dv (field_1 c) = PyInt d1
           \<and> get_dv_module_10 (info (field_2 c)) = Inr d2
           \<and> field_dv (field_2 c) = PyInt d2
           \<and> get_dv_module_10 (info (field_3 c)) = Inr d3
           \<and> field_dv (field_3 c) = PyInt d3"
proof -
  from get_info_from_bar_record [OF assms] obtain c where
    c: "get_info_from_bar B = Inr c" by blast
  have f: "FebrabanCode (PyStr B) = Inr c"
    using assms(1) c by (simp add: FebrabanCode_str filter_isdigit_decimal [OF assms(2)])
  from bar_checks [OF assms c] f show ?thesis by blast
qed

theorem bar_check_digits_derived_witness:
  "length ''00193373700000001000500940144816060680935031'' = 44
   \<and> list_all is_decimal ''00193373700000001000500940144816060680935031''
   \<and> (\<exists>c d1 d2 d3.
        FebrabanCode (PyStr ''00193373700000001000500940144816060680935031'') = Inr c
        \<and> bank c = ''001''
        \<and> currency c = ''9''
        \<and> info (field_1 c) = ''05009''
        \<and> info (field_2 c) = ''4014481606''
        \<and> info (field_3 c) = ''0680935031''
        \<and> get_dv_module_10 (bank c @ currency c @ info (field_1 c)) = Inr d1
        \<and> field_dv (field_1 c) = PyInt d1
        \<and> get_dv_module_10 (info (field_2 c)) = Inr d2
        \<and> field_dv (field_2 c) = PyInt d2
        \<and> get_dv_module_10 (info (field_3 c)) = Inr d3
        \<and> field_dv (field_3 c) = PyInt d3)"
proof -
  have h1: "length ''00193373700000001000500940144816060680935031'' = 44"
    by simp
  have h2: "list_all is_decimal ''00193373700000001000500940144816060680935031''"
    by (simp add: is_decimal_def)
  show ?thesis
    using h1 h2 bar_check_digits_derived [OF h1 h2] by simp
qed

text \<open>
  Claim C3. For every record that the constructor returns, \<^verbatim>\<open>validate()\<close> returns a
  boolean and never raises: the four check digits it recomputes and the four stored ones
  it converts with \<^verbatim>\<open>int()\<close> all exist, and the result is true if and only if the
  modulo-10 check digits of bank, currency and field 1 payload, of field 2 payload and of
  field 3 payload equal the stored field check digits and the modulo-11 check digit of the
  44-digit bar representation without its character at index 4, a string of 43 digits,
  equals the stored overall check digit, which is that character.
\<close>

theorem validate_iff_all_checks:
  assumes "FebrabanCode v = Inr c"
  shows "\<exists>d1 d2 d3 d4 s1 s2 s3 s4.
           get_dv_module_10 (bank c @ currency c @ info (field_1 c)) = Inr d1
         \<and> int_of (field_dv (field_1 c)) = Inr s1
         \<and> get_dv_module_10 (info (field_2 c)) = Inr d2
         \<and> int_of (field_dv (field_2 c)) = Inr s2
         \<and> get_dv_module_10 (info (field_3 c)) = Inr d3
         \<and> int_of (field_dv (field_3 c)) = Inr s3
         \<and> length (get_bar c) = 44
         \<and> take 1 (drop 4 (get_bar c)) = dv c
         \<and> length (take 4 (get_bar c) @ drop 5 (get_bar c)) = 43
         \<and> get_dv_module_11 (take 4 (get_bar c) @ drop 5 (get_bar c)) = Inr d4
         \<and> py_int (dv c) = Inr s4
         \<and> validate c = Inr (d1 = s1 \<and> d2 = s2 \<and> d3 = s3 \<and> d4 = s4)"
proof -
  from constructed_cases [OF assms] obtain s where
    dec: "list_all is_decimal (filter isdigit s)"
    and cases: "length (filter isdigit s) = 44 \<and> get_info_from_bar (filter isdigit s) = Inr c
              \<or> length (filter isdigit s) = 47 \<and> get_info_from_line (filter isdigit s) = Inr c"
    by blast
  from cases show ?thesis
  proof
    assume "length (filter isdigit s) = 44 \<and> get_info_from_bar (filter isdigit s) = Inr c"
    then have len: "length (filter isdigit s) = 44"
      and c: "get_info_from_bar (filter isdigit s) = Inr c" by simp_all
    from bar_checks [OF len dec c] obtain d1 d2 d3 d4 s4 where
      f: "get_dv_module_10 (bank c @ currency c @ info (field_1 c)) = Inr d1"
         "field_dv (field_1 c) = PyInt d1"
         "get_dv_module_10 (info (field_2 c)) = Inr d2"
         "field_dv (field_2 c) = PyInt d2"
         "get_dv_module_10 (info (field_3 c)) = Inr d3"
         "field_dv (field_3 c) = PyInt d3"
         "get_dv_module_11 (take 4 (get_bar c) @ drop 5 (get_bar c)) = Inr d4"
         "py_int (dv c) = Inr s4"
         "get_bar c = filter isdigit s"
         "dv c = take 1 (drop 4 (filter isdigit s))"
      by blast
    have i: "int_of (field_dv (field_1 c)) = Inr d1" "int_of (field_dv (field_2 c)) = Inr d2"
      "int_of (field_dv (field_3 c)) = Inr d3"
      using f(2,4,6) by simp_all
    have l: "length (get_bar c) = 44" using f(9) len by simp
    have p: "take 1 (drop 4 (get_bar c)) = dv c" using f(9,10) by simp
    have l43: "length (take 4 (get_bar c) @ drop 5 (get_bar c)) = 43" using l by simp
    from validate_eq [OF f(1) i(1) f(3) i(2) f(5) i(3) f(7) f(8)] f(1,3,5,7,8) i l p l43
    show ?thesis by blast
  next
    assume "length (filter isdigit s) = 47 \<and> get_info_from_line (filter isdigit s) = Inr c"
    then have len: "length (filter isdigit s) = 47"
      and c: "get_info_from_line (filter isdigit s) = Inr c" by simp_all
    from line_checks [OF len dec c] obtain d1 d2 d3 d4 s1 s2 s3 s4 where
      f: "get_dv_module_10 (bank c @ currency c @ info (field_1 c)) = Inr d1"
         "int_of (field_dv (field_1 c)) = Inr s1"
         "get_dv_module_10 (info (field_2 c)) = Inr d2"
         "int_of (field_dv (field_2 c)) = Inr s2"
         "get_dv_module_10 (info (field_3 c)) = Inr d3"
         "int_of (field_dv (field_3 c)) = Inr s3"
         "get_dv_module_11 (take 4 (get_bar c) @ drop 5 (get_bar c)) = Inr d4"
         "py_int (dv c) = Inr s4"
         "length (get_bar c) = 44"
         "take 1 (drop 4 (get_bar c)) = dv c"
      by blast
    have l43: "length (take 4 (get_bar c) @ drop 5 (get_bar c)) = 43" using f(9) by simp
    from validate_eq [OF f(1-8)] f l43
    show ?thesis by blast
  qed
qed

theorem validate_iff_all_checks_witness:
  "FebrabanCode (PyStr ''00190500954014481606906809350314337370000000100'') =
     Inr \<lparr>kind = Line, bank = ''001'', currency = ''9'',
          field_1 = \<lparr>info = ''05009'', field_dv = PyStr ''5''\<rparr>,
          field_2 = \<lparr>info = ''4014481606'', field_dv = PyStr ''9''\<rparr>,
          field_3 = \<lparr>info = ''0680935031'', field_dv = PyStr ''4''\<rparr>,
          dv = ''3'', expiry_factor = ''3737'', expiry = 733041,
          value_factor = ''0000000100'', amount = 1\<rparr>
   \<and> validate \<lparr>kind = Line, bank = ''001'', currency = ''9'',
          field_1 = \<lparr>info = ''05009'', field_dv = PyStr ''5''\<rparr>,
          field_2 = \<lparr>info = ''4014481606'', field_dv = PyStr ''9''\<rparr>,
          field_3 = \<lparr>info = ''0680935031'', field_dv = PyStr ''4''\<rparr>,
          dv = ''3'', expiry_factor = ''3737'', expiry = 733041,
          value_factor = ''0000000100'', amount = 1\<rparr> = Inr True"
proof -
  let ?c = "\<lparr>kind = Line, bank = ''001'', currency = ''9'',
          field_1 = \<lparr>info = ''05009'', field_dv = PyStr ''5''\<rparr>,
          field_2 = \<lparr>info = ''4014481606'', field_dv = PyStr ''9''\<rparr>,
          field_3 = \<lparr>info = ''0680935031'', field_dv = PyStr ''4''\<rparr>,
          dv = ''3'', expiry_factor = ''3737'', expiry = 733041,
          value_factor = ''0000000100'', amount = 1\<rparr>"
  have h: "FebrabanCode (PyStr ''00190500954014481606906809350314337370000000100'') = Inr ?c"
    by code_simp
  have e: "get_dv_module_10 (bank ?c @ currency ?c @ info (field_1 ?c)) = Inr 5"
    "int_of (field_dv (field_1 ?c)) = Inr 5"
    "get_dv_module_10 (info (field_2 ?c)) = Inr 9"
    "int_of (field_dv (field_2 ?c)) = Inr 9"
    "get_dv_module_10 (info (field_3 ?c)) = Inr 4"
    "int_of (field_dv (field_3 ?c)) = Inr 4"
    "get_dv_module_11 (take 4 (get_bar ?c) @ drop 5 (get_bar ?c)) = Inr 3"
    "py_int (dv ?c) = Inr 3"
    by code_simp+
  from validate_iff_all_checks [OF h] e have "validate ?c = Inr True"
    by auto
  with h show ?thesis by (rule conjI)
qed

text \<open>
  Claim C9. For every record constructed from a string whose digits are 44, the three
  modulo-10 comparisons of \<^verbatim>\<open>validate()\<close> always succeed, since the stored field check
  digits are the values \<^verbatim>\<open>__get_dv_module_10\<close> returned on the same substrings at
  construction; so \<^verbatim>\<open>validate()\<close> returns true if and only if the modulo-11 comparison
  of the overall check digit succeeds.
\<close>

theorem bar_validate_iff_overall_check:
  assumes "length (filter isdigit s) = 44" and "FebrabanCode (PyStr s) = Inr c"
  shows "\<exists>d1 d2 d3 d4 s4.
           kind c = Bar
         \<and> get_dv_module_10 (bank c @ currency c @ info (field_1 c)) = Inr d1
         \<and> int_of (field_dv (field_1 c)) = Inr d1
         \<and> get_dv_module_10 (info (field_2 c)) = Inr d2
         \<and> int_of (field_dv (field_2 c)) = Inr d2
         \<and> get_dv_module_10 (info (field_3 c)) = Inr d3
         \<and> int_of (field_dv (field_3 c)) = Inr d3
         \<and> get_dv_module_11 (take 4 (get_bar c) @ drop 5 (get_bar c)) = Inr d4
         \<and> py_int (dv c) = Inr s4
         \<and> validate c = Inr (d4 = s4)"
proof -
  from assms have c: "get_info_from_bar (filter isdigit s) = Inr c"
    by (simp add: FebrabanCode_str)
  have dec: "list_all is_decimal (filter isdigit s)"
    using get_info_from_bar_malformed [OF assms(1)] c by auto
  from bar_checks [OF assms(1) dec c] obtain d1 d2 d3 d4 s4 where
    f: "get_dv_module_10 (bank c @ currency c @ info (field_1 c)) = Inr d1"
       "field_dv (field_1 c) = PyInt d1"
       "get_dv_module_10 (info (field_2 c)) = Inr d2"
       "field_dv (field_2 c) = PyInt d2"
       "get_dv_module_10 (info (field_3 c)) = Inr d3"
       "field_dv (field_3 c) = PyInt d3"
       "get_dv_module_11 (take 4 (get_bar c) @ drop 5 (get_bar c)) = Inr d4"
       "py_int (dv c) = Inr s4"
       "kind c = Bar"
    by blast
  have i: "int_of (field_dv (field_1 c)) = Inr d1" "int_of (field_dv (field_2 c)) = Inr d2"
    "int_of (field_dv (field_3 c)) = Inr d3"
    using f(2,4,6) by simp_all
  from validate_eq [OF f(1) i(1) f(3) i(2) f(5) i(3) f(7) f(8)]
  have "validate c = Inr (d4 = s4)" by simp
  with f(1,3,5,7,8,9) i show ?thesis by blast
qed

theorem bar_validate_iff_overall_check_witness:
  "length (filter isdigit ''00197373700000001000500940144816060680935031'') = 44
   \<and> FebrabanCode (PyStr ''00197373700000001000500940144816060680935031'') =
     Inr \<lparr>kind = Bar, bank = ''001'', currency = ''9'',
          field_1 = \<lparr>info = ''05009'', field_dv = PyInt 5\<rparr>,
          field_2 = \<lparr>info = ''4014481606'', field_dv = PyInt 9\<rparr>,
          field_3 = \<lparr>info = ''0680935031'', field_dv = PyInt 4\<rparr>,
          dv = ''7'', expiry_factor = ''3737'', expiry = 733041,
          value_factor = ''0000000100'', amount = 1\<rparr>
   \<and> validate \<lparr>kind = Bar, bank = ''001'', currency = ''9'',
          field_1 = \<lparr>info = ''05009'', field_dv = PyInt 5\<rparr>,
          field_2 = \<lparr>info = ''4014481606'', field_dv = PyInt 9\<rparr>,
          field_3 = \<lparr>info = ''0680935031'', field_dv = PyInt 4\<rparr>,
          dv = ''7'', expiry_factor = ''3737'', expiry = 733041,
          value_factor = ''0000000100'', amount = 1\<rparr> = Inr False"
proof -
  let ?c = "\<lparr>kind = Bar, bank = ''001'', currency = ''9'',
          field_1 = \<lparr>info = ''05009'', field_dv = PyInt 5\<rparr>,
          field_2 = \<lparr>info = ''4014481606'', field_dv = PyInt 9\<rparr>,
          field_3 = \<lparr>info = ''0680935031'', field_dv = PyInt 4\<rparr>,
          dv = ''7'', expiry_factor = ''3737'', expiry = 733041,
          value_factor = ''0000000100'', amount = 1\<rparr>"
  have h1: "length (filter isdigit ''00197373700000001000500940144816060680935031'') = 44"
    by code_simp
  have h2: "FebrabanCode (PyStr ''00197373700000001000500940144816060680935031'') = Inr ?c"
    by code_simp
  have e: "get_dv_module_11 (take 4 (get_bar ?c) @ drop 5 (get_bar ?c)) = Inr 3"
    "py_int (dv ?c) = Inr 7"
    by code_simp+
  from bar_validate_iff_overall_check [OF h1 h2] e have "validate ?c = Inr False"
    by auto
  with h1 h2 show ?thesis by blast
qed

end
